theory Spec2Isabelle
  imports Main "HOL-Library.Sublist" "HOL-Library.Multiset"
begin

section \<open>Data model of the gateway's service proxy\<close>

text \<open>
  Values of TypeScript type \<open>any\<close> that travel through the proxy (request bodies, query
  parameters, response bodies, fields of enriched records) are JSON values.
\<close>

datatype json =
    JNull
  | JBool bool
  | JNum int
  | JStr string
  | JArr "json list"
  | JObj "(string \<times> json) list"

text \<open>\<open>ServiceProxyConfig\<close> of \<open>types\<close>: baseUrl, timeout, retries, headers.\<close>

record ServiceProxyConfig =
  cfg_baseUrl :: string
  cfg_timeout :: int
  cfg_retries :: int
  cfg_headers :: "(string \<times> string) list"

text \<open>
  The two private data fields of class \<open>ServiceProxy\<close>. Its third field, the axios
  instance, is the external transport and lives in the environment below.
\<close>

record ServiceProxy =
  serviceName :: string
  config :: ServiceProxyConfig

text \<open>What a resolved axios call carries: \<open>data\<close>, \<open>status\<close>, \<open>headers\<close>.\<close>

record AxiosResponse =
  resp_data :: json
  resp_status :: int
  resp_headers :: "(string \<times> string) list"

text \<open>
  The raw failure handed to the response interceptor (\<open>error: any\<close>): the three
  properties \<open>transformError\<close> reads, each possibly undefined.
\<close>

record RawError =
  raw_code :: "string option"
  raw_message :: "string option"
  raw_response :: "AxiosResponse option"

text \<open>\<open>ServiceProxyError\<close> of \<open>types\<close>: an \<open>Error\<close> with optional extra properties.\<close>

record ServiceProxyError =
  err_message :: string
  err_status :: "int option"
  err_code :: "string option"
  err_response :: "AxiosResponse option"
  err_isTimeout :: "bool option"
  err_isNetworkError :: "bool option"

text \<open>\<open>ServiceProxyResponse\<close> of \<open>types\<close>.\<close>

record ServiceProxyResponse =
  spr_data :: json
  spr_status :: int
  spr_headers :: "(string \<times> string) list"
  spr_responseTime :: int

text \<open>The \<open>AxiosRequestConfig\<close> that \<open>request\<close> builds for every physical attempt.\<close>

record AxiosRequestConfig =
  rc_method :: string
  rc_url :: string
  rc_data :: "json option"
  rc_params :: "json option"
  rc_timeout :: int

text \<open>The \<open>options\<close> argument of \<open>request\<close>; every property may be absent.\<close>

record RequestOptions =
  opt_data :: "json option"
  opt_params :: "json option"
  opt_retries :: "int option"
  opt_timeout :: "int option"

text \<open>The per-call overrides that the verb methods accept.\<close>

record CallOptions =
  co_retries :: "int option"
  co_timeout :: "int option"

text \<open>
  What a logical call can throw: the error caught from the last physical attempt, or the
  \<open>GatewayError\<close> (an \<open>AppError\<close> with code \<open>GATEWAY_ERROR\<close> and status 502) built from
  a message when no error was caught.
\<close>

datatype thrown =
    ProxyFailure ServiceProxyError
  | GatewayError string

subsection \<open>Strings\<close>

text \<open>
  \<open>String.prototype.includes\<close> and \<open>toLowerCase\<close>. Messages are taken as ASCII text:
  lower-casing touches the letters A to Z only.
\<close>

fun str_includes :: "string \<Rightarrow> string \<Rightarrow> bool" where
  "str_includes [] sub = (sub = [])"
| "str_includes (c # cs) sub = (prefix sub (c # cs) \<or> str_includes cs sub)"

definition lowerChar :: "char \<Rightarrow> char" where
  "lowerChar c =
     (let n = (of_char c :: nat) in if 65 \<le> n \<and> n \<le> 90 then char_of (n + 32) else c)"

definition toLowerCase :: "string \<Rightarrow> string" where
  "toLowerCase s = map lowerChar s"

subsection \<open>Error codes (module \<open>errors\<close>)\<close>

definition mapStatusToDefaultCode :: "int \<Rightarrow> string" where
  "mapStatusToDefaultCode status =
     (if status = 400 then ''VALIDATION_ERROR''
      else if status = 401 then ''AUTH_REQUIRED''
      else if status = 403 then ''FORBIDDEN''
      else if status = 404 then ''NOT_FOUND''
      else if status = 405 then ''METHOD_NOT_ALLOWED''
      else if status = 409 then ''CONFLICT''
      else if status = 429 then ''RATE_LIMITED''
      else if status = 500 then ''INTERNAL''
      else if status = 502 then ''GATEWAY_ERROR''
      else if status = 503 then ''SERVICE_UNAVAILABLE''
      else if status = 504 then ''TIMEOUT''
      else if status \<ge> 500 then ''INTERNAL'' else ''VALIDATION_ERROR'')"

text \<open>\<open>status || 500\<close>: an absent or zero status falls back to 500.\<close>

definition statusOr500 :: "int option \<Rightarrow> int" where
  "statusOr500 status = (case status of None \<Rightarrow> 500 | Some s \<Rightarrow> if s = 0 then 500 else s)"

definition deriveCodeFromMessage :: "string \<Rightarrow> int option \<Rightarrow> string" where
  "deriveCodeFromMessage message status =
     (if message = [] then mapStatusToDefaultCode (statusOr500 status)
      else
        (let lowerMessage = toLowerCase message in
         if str_includes lowerMessage ''duplicate'' \<or> str_includes lowerMessage ''e11000''
           then ''DUPLICATE_KEY''
         else if str_includes lowerMessage ''validation'' \<or> str_includes lowerMessage ''invalid''
           then ''VALIDATION_ERROR''
         else if str_includes lowerMessage ''not found'' \<or> str_includes lowerMessage ''missing''
           then ''NOT_FOUND''
         else if str_includes lowerMessage ''timeout'' \<or> str_includes lowerMessage ''etimedout''
           then ''TIMEOUT''
         else if str_includes lowerMessage ''unauthorized'' \<or> str_includes lowerMessage ''auth''
           then ''AUTH_REQUIRED''
         else if str_includes lowerMessage ''forbidden'' \<or> str_includes lowerMessage ''access denied''
           then ''FORBIDDEN''
         else if str_includes lowerMessage ''rate limit'' \<or> str_includes lowerMessage ''too many''
           then ''RATE_LIMITED''
         else mapStatusToDefaultCode (statusOr500 status)))"

section \<open>The error classifier\<close>

text \<open>\<open>new Error()\<close>: an empty message and none of the optional properties.\<close>

definition new_Error :: ServiceProxyError where
  "new_Error =
     \<lparr>err_message = [], err_status = None, err_code = None, err_response = None,
      err_isTimeout = None, err_isNetworkError = None\<rparr>"

text \<open>\<open>error.message || fallback\<close>: an absent or empty message gives the fallback.\<close>

definition messageOr :: "string option \<Rightarrow> string \<Rightarrow> string" where
  "messageOr m fallback = (case m of None \<Rightarrow> fallback | Some s \<Rightarrow> if s = [] then fallback else s)"

text \<open>\<open>error.message?.includes('timeout')\<close>: undefined (falsy) without a message.\<close>

definition messageIncludes :: "string option \<Rightarrow> string \<Rightarrow> bool" where
  "messageIncludes m sub = (case m of None \<Rightarrow> False | Some s \<Rightarrow> str_includes s sub)"

definition transformError :: "string \<Rightarrow> RawError \<Rightarrow> ServiceProxyError" where
  "transformError name error =
     (let proxyError =
        (if raw_code error = Some ''ECONNREFUSED'' \<or> raw_code error = Some ''ENOTFOUND'' then
           new_Error
             \<lparr>err_message := ''Service '' @ name @ '' is unavailable'',
              err_isNetworkError := Some True,
              err_status := Some 503\<rparr>
         else if raw_code error = Some ''ETIMEDOUT'' \<or> messageIncludes (raw_message error) ''timeout'' then
           new_Error
             \<lparr>err_message := ''Request to '' @ name @ '' timed out'',
              err_isTimeout := Some True,
              err_status := Some 504\<rparr>
         else
           (case raw_response error of
              Some response \<Rightarrow>
                new_Error
                  \<lparr>err_message := messageOr (raw_message error) ''Service request failed'',
                   err_status := Some (resp_status response),
                   err_response :=
                     Some \<lparr>resp_data = resp_data response, resp_status = resp_status response,
                           resp_headers = resp_headers response\<rparr>\<rparr>
            | None \<Rightarrow>
                new_Error
                  \<lparr>err_message := messageOr (raw_message error) ''Unknown service error'',
                   err_status := Some 502\<rparr>))
      in proxyError\<lparr>err_code := Some (deriveCodeFromMessage (err_message proxyError) (err_status proxyError))\<rparr>)"

section \<open>The environment and the trace of a proxy\<close>

text \<open>
  The external collaborators. \<open>axiosRequest n rc\<close> is what awaiting the \<open>n\<close>-th physical
  call on the axios instance yields for request configuration \<open>rc\<close>: a response, or the
  rejection the \<open>catch\<close> block sees. \<open>dateNow n\<close> is the \<open>n\<close>-th reading of \<open>Date.now()\<close>.
\<close>

record env =
  axiosRequest :: "nat \<Rightarrow> AxiosRequestConfig \<Rightarrow> ServiceProxyError + AxiosResponse"
  dateNow :: "nat \<Rightarrow> int"

text \<open>
  The instance the constructor builds: \<open>setupInterceptors\<close> installs a response
  interceptor that passes every rejection of the underlying transport through
  \<open>transformError\<close>.
\<close>

definition intercepted ::
  "string \<Rightarrow> (nat \<Rightarrow> AxiosRequestConfig \<Rightarrow> RawError + AxiosResponse) \<Rightarrow>
   nat \<Rightarrow> AxiosRequestConfig \<Rightarrow> ServiceProxyError + AxiosResponse" where
  "intercepted name transport n rc =
     (case transport n rc of
        Inl error \<Rightarrow> Inl (transformError name error)
      | Inr response \<Rightarrow> Inr response)"

text \<open>
  A rejection as axios produces it: a response is rejected only by \<open>settle\<close>, which
  resolves every response whose status is falsy, so the response on a rejection has a
  status other than 0.
\<close>

definition settled :: "RawError \<Rightarrow> bool" where
  "settled error =
     (case raw_response error of None \<Rightarrow> True | Some response \<Rightarrow> resp_status response \<noteq> 0)"

text \<open>
  What a proxy does to the outside world, in the order it happens: a physical request
  handed to the axios instance, or a delay slept between two attempts.
\<close>

datatype event =
    Issued AxiosRequestConfig
  | Slept int

fun issuedOf :: "event list \<Rightarrow> AxiosRequestConfig list" where
  "issuedOf [] = []"
| "issuedOf (Issued rc # es) = rc # issuedOf es"
| "issuedOf (Slept ms # es) = issuedOf es"

fun sleptOf :: "event list \<Rightarrow> int list" where
  "sleptOf [] = []"
| "sleptOf (Issued rc # es) = sleptOf es"
| "sleptOf (Slept ms # es) = ms # sleptOf es"

text \<open>
  The state a call runs in: the proxy object itself (\<open>this\<close>), the events so far, and
  how often the clock was read.
\<close>

record world =
  self :: ServiceProxy
  events :: "event list"
  clockReads :: nat

definition issued :: "world \<Rightarrow> AxiosRequestConfig list" where
  "issued w = issuedOf (events w)"

definition slept :: "world \<Rightarrow> int list" where
  "slept w = sleptOf (events w)"

text \<open>The number of physical attempts issued between two states of the world.\<close>

definition attempts :: "world \<Rightarrow> world \<Rightarrow> nat" where
  "attempts w w' = length (issued w') - length (issued w)"

text \<open>
  The outcome of the \<open>j\<close>-th physical attempt (counted from 0) issued after state \<open>w\<close>.
\<close>

definition outcomeAt ::
  "env \<Rightarrow> world \<Rightarrow> AxiosRequestConfig \<Rightarrow> nat \<Rightarrow> ServiceProxyError + AxiosResponse" where
  "outcomeAt e w rc j = axiosRequest e (length (issued w) + j) rc"

definition Date_now :: "env \<Rightarrow> world \<Rightarrow> int \<times> world" where
  "Date_now e w = (dateNow e (clockReads w), w\<lparr>clockReads := Suc (clockReads w)\<rparr>)"

definition axios_call ::
  "env \<Rightarrow> AxiosRequestConfig \<Rightarrow> world \<Rightarrow> (ServiceProxyError + AxiosResponse) \<times> world" where
  "axios_call e rc w =
     (axiosRequest e (length (issued w)) rc, w\<lparr>events := events w @ [Issued rc]\<rparr>)"

definition sleep :: "int \<Rightarrow> world \<Rightarrow> world" where
  "sleep ms w = w\<lparr>events := events w @ [Slept ms]\<rparr>"

section \<open>The retry loop of \<open>ServiceProxy.request\<close>\<close>

text \<open>
  Statuses, timeouts and the retry budget are JavaScript numbers used as integers; they
  are integers here.

  The guard of the first \<open>break\<close>:
  \<open>lastError.status && (lastError.status < 500 || lastError.status === 501 || lastError.status === 505)\<close>.
  A status that is absent or 0 is falsy.
\<close>

definition nonRetryable :: "ServiceProxyError \<Rightarrow> bool" where
  "nonRetryable error =
     (case err_status error of
        None \<Rightarrow> False
      | Some s \<Rightarrow> s \<noteq> 0 \<and> (s < 500 \<or> s = 501 \<or> s = 505))"

text \<open>
  \<open>Math.min(1000 * Math.pow(2, attempt - 1), 5000)\<close>, evaluated by the loop after
  \<open>attempt++\<close>, so for \<open>attempt \<ge> 1\<close> only.
\<close>

definition backoffDelay :: "nat \<Rightarrow> int" where
  "backoffDelay attempt = min (1000 * 2 ^ (attempt - 1)) 5000"

text \<open>\<open>throw lastError || new GatewayError(...)\<close>.\<close>

definition throwLast :: "ServiceProxyError option \<Rightarrow> world \<Rightarrow> thrown" where
  "throwLast lastError w =
     (case lastError of
        Some error \<Rightarrow> ProxyFailure error
      | None \<Rightarrow> GatewayError (''Failed to connect to '' @ serviceName (self w)))"

text \<open>
  The \<open>while (attempt <= retries)\<close> loop. A resolved attempt returns from inside the loop;
  a rejected one increments \<open>attempt\<close>, then breaks on a non-retryable status, breaks on an
  exhausted budget, or sleeps and goes round again.
\<close>

function request_loop ::
  "env \<Rightarrow> AxiosRequestConfig \<Rightarrow> int \<Rightarrow> int \<Rightarrow> nat \<Rightarrow> ServiceProxyError option \<Rightarrow> world \<Rightarrow>
   (thrown + ServiceProxyResponse) \<times> world" where
  "request_loop e requestConfig retries startTime attempt lastError w =
     (if int attempt \<le> retries then
        (let r = axios_call e requestConfig w in
         case fst r of
           Inr response \<Rightarrow>
             (let t = Date_now e (snd r) in
              (Inr \<lparr>spr_data = resp_data response, spr_status = resp_status response,
                    spr_headers = resp_headers response, spr_responseTime = fst t - startTime\<rparr>,
               snd t))
         | Inl error \<Rightarrow>
             if nonRetryable error then (Inl (throwLast (Some error) (snd r)), snd r)
             else if int (Suc attempt) > retries then (Inl (throwLast (Some error) (snd r)), snd r)
             else request_loop e requestConfig retries startTime (Suc attempt) (Some error)
                    (sleep (backoffDelay (Suc attempt)) (snd r)))
      else (Inl (throwLast lastError w), w))"
  by pat_completeness auto
termination
  by (relation "measure (\<lambda>(e, rc, retries, startTime, attempt, lastError, w). nat (retries - int attempt))")
    auto

text \<open>\<open>timeout || this.config.timeout\<close>: an absent or zero override gives the default.\<close>

definition effectiveTimeout :: "int option \<Rightarrow> ServiceProxyConfig \<Rightarrow> int" where
  "effectiveTimeout timeout cfg =
     (case timeout of None \<Rightarrow> cfg_timeout cfg | Some t \<Rightarrow> if t = 0 then cfg_timeout cfg else t)"

text \<open>\<open>retries = this.config.retries\<close>: the default applies when the property is absent.\<close>

definition effectiveRetries :: "int option \<Rightarrow> ServiceProxyConfig \<Rightarrow> int" where
  "effectiveRetries retries cfg = (case retries of None \<Rightarrow> cfg_retries cfg | Some r \<Rightarrow> r)"

text \<open>The \<open>requestConfig\<close> object that \<open>request\<close> builds once and reuses for every attempt.\<close>

definition requestConfigOf :: "string \<Rightarrow> string \<Rightarrow> RequestOptions \<Rightarrow> world \<Rightarrow> AxiosRequestConfig" where
  "requestConfigOf method path options w =
     \<lparr>rc_method = toLowerCase method, rc_url = path, rc_data = opt_data options,
      rc_params = opt_params options,
      rc_timeout = effectiveTimeout (opt_timeout options) (config (self w))\<rparr>"

definition request ::
  "env \<Rightarrow> string \<Rightarrow> string \<Rightarrow> RequestOptions \<Rightarrow> world \<Rightarrow> (thrown + ServiceProxyResponse) \<times> world" where
  "request e method path options w =
     (let retries = effectiveRetries (opt_retries options) (config (self w));
          t = Date_now e w;
          startTime = fst t;
          requestConfig = requestConfigOf method path options w
      in request_loop e requestConfig retries startTime 0 None (snd t))"

section \<open>The verb methods and the health check\<close>

text \<open>
  \<open>{ params, ...options }\<close> and \<open>{ data, ...options }\<close>: the optional \<open>options\<close> argument
  contributes its \<open>retries\<close> and \<open>timeout\<close>, nothing when it is undefined.
\<close>

definition spreadOptions :: "json option \<Rightarrow> json option \<Rightarrow> CallOptions option \<Rightarrow> RequestOptions" where
  "spreadOptions d p options =
     \<lparr>opt_data = d, opt_params = p,
      opt_retries = (case options of None \<Rightarrow> None | Some co \<Rightarrow> co_retries co),
      opt_timeout = (case options of None \<Rightarrow> None | Some co \<Rightarrow> co_timeout co)\<rparr>"

definition get ::
  "env \<Rightarrow> string \<Rightarrow> json option \<Rightarrow> CallOptions option \<Rightarrow> world \<Rightarrow>
   (thrown + ServiceProxyResponse) \<times> world" where
  "get e path params options w = request e ''GET'' path (spreadOptions None params options) w"

definition post ::
  "env \<Rightarrow> string \<Rightarrow> json option \<Rightarrow> CallOptions option \<Rightarrow> world \<Rightarrow>
   (thrown + ServiceProxyResponse) \<times> world" where
  "post e path d options w = request e ''POST'' path (spreadOptions d None options) w"

definition put ::
  "env \<Rightarrow> string \<Rightarrow> json option \<Rightarrow> CallOptions option \<Rightarrow> world \<Rightarrow>
   (thrown + ServiceProxyResponse) \<times> world" where
  "put e path d options w = request e ''PUT'' path (spreadOptions d None options) w"

definition delete ::
  "env \<Rightarrow> string \<Rightarrow> CallOptions option \<Rightarrow> world \<Rightarrow>
   (thrown + ServiceProxyResponse) \<times> world" where
  "delete e path options w = request e ''DELETE'' path (spreadOptions None None options) w"

definition patch ::
  "env \<Rightarrow> string \<Rightarrow> json option \<Rightarrow> CallOptions option \<Rightarrow> world \<Rightarrow>
   (thrown + ServiceProxyResponse) \<times> world" where
  "patch e path d options w = request e ''PATCH'' path (spreadOptions d None options) w"

datatype health = healthy | unhealthy

record HealthResult =
  hc_status :: health
  hc_responseTime :: "int option"
  hc_error :: "string option"

text \<open>\<open>this.axiosInstance.get('/health', { timeout: 5000 })\<close> as a request configuration.\<close>

definition healthRequest :: AxiosRequestConfig where
  "healthRequest =
     \<lparr>rc_method = ''get'', rc_url = ''/health'', rc_data = None, rc_params = None,
      rc_timeout = 5000\<rparr>"

definition healthCheck :: "env \<Rightarrow> world \<Rightarrow> (thrown + HealthResult) \<times> world" where
  "healthCheck e w =
     (let t0 = Date_now e w;
          startTime = fst t0;
          r = axios_call e healthRequest (snd t0);
          t1 = Date_now e (snd r)
      in case fst r of
           Inr response \<Rightarrow>
             (Inr \<lparr>hc_status = healthy, hc_responseTime = Some (fst t1 - startTime), hc_error = None\<rparr>,
              snd t1)
         | Inl error \<Rightarrow>
             (Inr \<lparr>hc_status = unhealthy, hc_responseTime = Some (fst t1 - startTime),
                   hc_error = Some (err_message error)\<rparr>,
              snd t1))"

text \<open>The public operations of a constructed proxy, and a client running them in turn.\<close>

datatype operation =
    OpGet string "json option" "CallOptions option"
  | OpPost string "json option" "CallOptions option"
  | OpPut string "json option" "CallOptions option"
  | OpDelete string "CallOptions option"
  | OpPatch string "json option" "CallOptions option"
  | OpHealthCheck

fun perform :: "env \<Rightarrow> operation \<Rightarrow> world \<Rightarrow> world" where
  "perform e (OpGet path params options) w = snd (get e path params options w)"
| "perform e (OpPost path d options) w = snd (post e path d options w)"
| "perform e (OpPut path d options) w = snd (put e path d options w)"
| "perform e (OpDelete path options) w = snd (delete e path options w)"
| "perform e (OpPatch path d options) w = snd (patch e path d options w)"
| "perform e OpHealthCheck w = snd (healthCheck e w)"

fun performAll :: "env \<Rightarrow> operation list \<Rightarrow> world \<Rightarrow> world" where
  "performAll e [] w = w"
| "performAll e (op # ops) w = performAll e ops (perform e op w)"

text \<open>The overrides an operation passes, if it takes any.\<close>

fun overridesOf :: "operation \<Rightarrow> CallOptions option" where
  "overridesOf (OpGet path params options) = options"
| "overridesOf (OpPost path d options) = options"
| "overridesOf (OpPut path d options) = options"
| "overridesOf (OpDelete path options) = options"
| "overridesOf (OpPatch path d options) = options"
| "overridesOf OpHealthCheck = None"

section \<open>Aggregation and enrichment\<close>















text \<open>
  Every leg calls \<open>service.get(path, params)\<close> on its own proxy; \<open>envs i\<close> is what the
  physical attempts of leg \<open>i\<close> observe.
\<close>

definition freshWorld :: "ServiceProxy \<Rightarrow> world" where
  "freshWorld p = \<lparr>self = p, events = [], clockReads = 0\<rparr>"








section \<open>Reading a call off its physical attempts\<close>

text \<open>
  The events of a run of the loop that retries \<open>m\<close> times, entered with attempt counter
  \<open>a\<close>: each failed attempt is followed by its backoff sleep, then comes the last attempt.
\<close>

fun retryTrace :: "AxiosRequestConfig \<Rightarrow> nat \<Rightarrow> nat \<Rightarrow> event list" where
  "retryTrace rc a 0 = [Issued rc]"
| "retryTrace rc a (Suc m) = Issued rc # Slept (backoffDelay (Suc a)) # retryTrace rc (Suc a) m"

text \<open>What one run of the loop does, read off the outcomes of its physical attempts.\<close>

definition loopRuns ::
  "env \<Rightarrow> AxiosRequestConfig \<Rightarrow> int \<Rightarrow> int \<Rightarrow> nat \<Rightarrow> world \<Rightarrow>
   (thrown + ServiceProxyResponse) \<times> world \<Rightarrow> nat \<Rightarrow> bool" where
  "loopRuns e rc r t0 a w L m =
     (events (snd L) = events w @ retryTrace rc a m
      \<and> self (snd L) = self w
      \<and> int a + int m \<le> r
      \<and> (\<forall>j<m. \<exists>err. outcomeAt e w rc j = Inl err \<and> \<not> nonRetryable err)
      \<and> (case outcomeAt e w rc m of
            Inr response \<Rightarrow>
              fst L = Inr \<lparr>spr_data = resp_data response, spr_status = resp_status response,
                           spr_headers = resp_headers response,
                           spr_responseTime = dateNow e (clockReads w) - t0\<rparr>
              \<and> clockReads (snd L) = Suc (clockReads w)
          | Inl err \<Rightarrow>
              fst L = Inl (ProxyFailure err) \<and> (nonRetryable err \<or> int a + int m = r)
              \<and> clockReads (snd L) = clockReads w))"

text \<open>
  A logical call that makes \<open>m\<close> retries: \<open>m + 1\<close> physical attempts, all but the last
  failing with an error the loop goes on from, and the last one deciding the result.
\<close>

definition callRuns :: "env \<Rightarrow> string \<Rightarrow> string \<Rightarrow> RequestOptions \<Rightarrow> world \<Rightarrow> nat \<Rightarrow> bool" where
  "callRuns e method path options w m =
     (let rc = requestConfigOf method path options w;
          r = effectiveRetries (opt_retries options) (config (self w));
          R = request e method path options w
      in attempts w (snd R) = Suc m
         \<and> events (snd R) = events w @ retryTrace rc 0 m
         \<and> self (snd R) = self w
         \<and> int m \<le> r
         \<and> (\<forall>j<m. \<exists>err. outcomeAt e w rc j = Inl err \<and> \<not> nonRetryable err)
         \<and> (\<forall>response. outcomeAt e w rc m = Inr response \<longrightarrow>
               fst R = Inr \<lparr>spr_data = resp_data response, spr_status = resp_status response,
                            spr_headers = resp_headers response,
                            spr_responseTime = dateNow e (Suc (clockReads w)) - dateNow e (clockReads w)\<rparr>)
         \<and> (\<forall>err. outcomeAt e w rc m = Inl err \<longrightarrow>
               fst R = Inl (ProxyFailure err) \<and> (nonRetryable err \<or> int m = r)))"

section \<open>Scenarios\<close>

text \<open>
  A proxy for a users backend with a budget of three retries, and one configured as in
  the proxy's unit tests (two retries, 5000 ms timeout).
\<close>

definition usersProxy :: ServiceProxy where
  "usersProxy =
     \<lparr>serviceName = ''users'',
      config = \<lparr>cfg_baseUrl = ''http://localhost:8080'', cfg_timeout = 15000, cfg_retries = 3,
                cfg_headers = [(''Accept'', ''application/json'')]\<rparr>\<rparr>"

definition testProxy :: ServiceProxy where
  "testProxy =
     \<lparr>serviceName = ''testService'',
      config = \<lparr>cfg_baseUrl = ''http://localhost:8080'', cfg_timeout = 5000, cfg_retries = 2,
                cfg_headers = [(''Content-Type'', ''application/json'')]\<rparr>\<rparr>"

text \<open>A backend that refuses every connection, behind the proxy's interceptor.\<close>

definition connectionRefused :: RawError where
  "connectionRefused =
     \<lparr>raw_code = Some ''ECONNREFUSED'', raw_message = Some ''connect ECONNREFUSED 127.0.0.1:8080'',
      raw_response = None\<rparr>"

definition refusing :: env where
  "refusing =
     \<lparr>axiosRequest = intercepted ''users'' (\<lambda>n rc. Inl connectionRefused),
      dateNow = (\<lambda>n. 1000 * int n)\<rparr>"

text \<open>
  The rejections and the response of the proxy's unit tests: plain objects with a status
  and a message, handed to the loop by a mocked axios instance.
\<close>

definition serverError500 :: ServiceProxyError where
  "serverError500 = new_Error\<lparr>err_message := ''Internal Server Error'', err_status := Some 500\<rparr>"

definition badRequest400 :: ServiceProxyError where
  "badRequest400 = new_Error\<lparr>err_message := ''Bad Request'', err_status := Some 400\<rparr>"

definition successResponse :: AxiosResponse where
  "successResponse =
     \<lparr>resp_data = JObj [(''success'', JBool True)], resp_status = 200, resp_headers = []\<rparr>"

definition failTwiceThenOk :: env where
  "failTwiceThenOk =
     \<lparr>axiosRequest = (\<lambda>n rc. if n < 2 then Inl serverError500 else Inr successResponse),
      dateNow = (\<lambda>n. 1000 * int n)\<rparr>"

definition alwaysBadRequest :: env where
  "alwaysBadRequest =
     \<lparr>axiosRequest = (\<lambda>n rc. Inl badRequest400), dateNow = (\<lambda>n. 1000 * int n)\<rparr>"

definition alwaysServerError :: env where
  "alwaysServerError =
     \<lparr>axiosRequest = (\<lambda>n rc. Inl serverError500), dateNow = (\<lambda>n. 1000 * int n)\<rparr>"

text \<open>A mocked instance whose rejections are bare errors without a status.\<close>

definition bareError :: ServiceProxyError where
  "bareError = new_Error\<lparr>err_message := ''Service unavailable''\<rparr>"

definition alwaysBareError :: env where
  "alwaysBareError =
     \<lparr>axiosRequest = (\<lambda>n rc. Inl bareError), dateNow = (\<lambda>n. 1000 * int n)\<rparr>"

text \<open>A backend that answers every request with 429 Too Many Requests.\<close>

definition tooManyRequests :: RawError where
  "tooManyRequests =
     \<lparr>raw_code = Some ''ERR_BAD_REQUEST'', raw_message = Some ''Request failed with status code 429'',
      raw_response = Some \<lparr>resp_data = JNull, resp_status = 429, resp_headers = []\<rparr>\<rparr>"

definition rateLimiting :: env where
  "rateLimiting =
     \<lparr>axiosRequest = intercepted ''users'' (\<lambda>n rc. Inl tooManyRequests),
      dateNow = (\<lambda>n. 1000 * int n)\<rparr>"

text \<open>A backend that answers every request with 200 and an empty object.\<close>

definition okResponse :: AxiosResponse where
  "okResponse = \<lparr>resp_data = JObj [], resp_status = 200, resp_headers = []\<rparr>"

definition alwaysOk :: env where
  "alwaysOk = \<lparr>axiosRequest = (\<lambda>n rc. Inr okResponse), dateNow = (\<lambda>n. 1000 * int n)\<rparr>"

text \<open>A call that overrides both the retry budget and the timeout.\<close>

definition impatientGet :: operation where
  "impatientGet = OpGet ''/api/users'' None (Some \<lparr>co_retries = Some 0, co_timeout = Some 100\<rparr>)"

definition plainGet :: operation where
  "plainGet = OpGet ''/api/users/1'' None None"














section \<open>One step of the retry loop\<close>

declare request_loop.simps [simp del]

lemma issuedOf_append: "issuedOf (xs @ ys) = issuedOf xs @ issuedOf ys"
  by (induction xs rule: issuedOf.induct) simp_all

lemma sleptOf_append: "sleptOf (xs @ ys) = sleptOf xs @ sleptOf ys"
  by (induction xs rule: sleptOf.induct) simp_all

lemma loop_stop: "\<not> int a \<le> r \<Longrightarrow> request_loop e rc r t0 a lst w = (Inl (throwLast lst w), w)"
  by (simp add: request_loop.simps)

lemma loop_success:
  "int a \<le> r \<Longrightarrow> outcomeAt e w rc 0 = Inr response \<Longrightarrow>
   request_loop e rc r t0 a lst w =
     (Inr \<lparr>spr_data = resp_data response, spr_status = resp_status response,
           spr_headers = resp_headers response,
           spr_responseTime = dateNow e (clockReads w) - t0\<rparr>,
      w\<lparr>events := events w @ [Issued rc], clockReads := Suc (clockReads w)\<rparr>)"
  by (simp add: request_loop.simps[of e rc r t0 a lst w] axios_call_def Date_now_def Let_def
      outcomeAt_def)

lemma loop_break:
  "int a \<le> r \<Longrightarrow> outcomeAt e w rc 0 = Inl error \<Longrightarrow>
   nonRetryable error \<or> r < int (Suc a) \<Longrightarrow>
   request_loop e rc r t0 a lst w =
     (Inl (ProxyFailure error), w\<lparr>events := events w @ [Issued rc]\<rparr>)"
  by (auto simp add: request_loop.simps[of e rc r t0 a lst w] axios_call_def Let_def throwLast_def
      outcomeAt_def)

lemma loop_retry:
  "int a \<le> r \<Longrightarrow> outcomeAt e w rc 0 = Inl error \<Longrightarrow>
   \<not> nonRetryable error \<Longrightarrow> int (Suc a) \<le> r \<Longrightarrow>
   request_loop e rc r t0 a lst w =
     request_loop e rc r t0 (Suc a) (Some error)
       (w\<lparr>events := events w @ [Issued rc, Slept (backoffDelay (Suc a))]\<rparr>)"
  by (simp add: request_loop.simps[of e rc r t0 a lst w] axios_call_def Let_def sleep_def
      outcomeAt_def)

lemma outcomeAt_after_retry:
  "outcomeAt e (w\<lparr>events := events w @ [Issued rc, Slept d]\<rparr>) rc' j = outcomeAt e w rc' (Suc j)"
  by (simp add: outcomeAt_def issued_def issuedOf_append)

lemma loop_char:
  "int a \<le> r \<Longrightarrow> \<exists>m. loopRuns e rc r t0 a w (request_loop e rc r t0 a lst w) m"
proof (induction e rc r t0 a lst w rule: request_loop.induct)
  case (1 e rc r t0 a lst w)
  note run = \<open>int a \<le> r\<close>
  show ?case
  proof (cases "outcomeAt e w rc 0")
    case (Inr response)
    have "loopRuns e rc r t0 a w (request_loop e rc r t0 a lst w) 0"
      unfolding loop_success[OF run Inr] loopRuns_def using run Inr by simp
    then show ?thesis ..
  next
    case (Inl error)
    show ?thesis
    proof (cases "nonRetryable error \<or> r < int (Suc a)")
      case True
      have "loopRuns e rc r t0 a w (request_loop e rc r t0 a lst w) 0"
        unfolding loop_break[OF run Inl True] loopRuns_def using run Inl True by auto
      then show ?thesis ..
    next
      case False
      then have nr: "\<not> nonRetryable error" and more: "int (Suc a) \<le> r" by auto
      let ?w1 = "w\<lparr>events := events w @ [Issued rc, Slept (backoffDelay (Suc a))]\<rparr>"
      have call: "fst (axios_call e rc w) = Inl error"
        using Inl by (simp add: axios_call_def outcomeAt_def)
      have w1: "sleep (backoffDelay (Suc a)) (snd (axios_call e rc w)) = ?w1"
        by (simp add: axios_call_def sleep_def)
      have "\<exists>m. loopRuns e rc r t0 (Suc a) ?w1 (request_loop e rc r t0 (Suc a) (Some error) ?w1) m"
        using "1.IH"[OF run refl call] nr more unfolding w1 by simp
      then obtain m where m: "loopRuns e rc r t0 (Suc a) ?w1 (request_loop e rc r t0 (Suc a) (Some error) ?w1) m" ..
      have earlier: "\<exists>err. outcomeAt e w rc j = Inl err \<and> \<not> nonRetryable err" if "j < Suc m" for j
      proof (cases j)
        case 0
        then show ?thesis using Inl nr by simp
      next
        case (Suc i)
        with that have "i < m" by simp
        with m show ?thesis
          unfolding loopRuns_def outcomeAt_after_retry Suc by blast
      qed
      have "loopRuns e rc r t0 a w (request_loop e rc r t0 a lst w) (Suc m)"
        unfolding loop_retry[OF run Inl nr more]
        using m earlier unfolding loopRuns_def outcomeAt_after_retry
        by (auto split: sum.splits)
      then show ?thesis ..
    qed
  qed
qed


lemma issuedOf_retryTrace: "issuedOf (retryTrace rc a m) = replicate (Suc m) rc"
  by (induction m arbitrary: a) simp_all

lemma sleptOf_retryTrace: "sleptOf (retryTrace rc a m) = map backoffDelay [Suc a ..< Suc a + m]"
proof (induction m arbitrary: a)
  case 0
  show ?case by simp
next
  case (Suc m)
  have "[Suc a ..< Suc a + Suc m] = Suc a # [Suc (Suc a) ..< Suc (Suc a) + m]"
    by (simp add: upt_conv_Cons)
  then show ?case using Suc by simp
qed

lemma length_retryTrace: "length (retryTrace rc a m) = 2 * m + 1"
  by (induction m arbitrary: a) simp_all

lemma retryTrace_even: "i \<le> m \<Longrightarrow> retryTrace rc a m ! (2 * i) = Issued rc"
proof (induction m arbitrary: a i)
  case 0
  then show ?case by simp
next
  case (Suc m)
  show ?case
  proof (cases i)
    case 0
    then show ?thesis by simp
  next
    case (Suc k)
    with Suc.prems have "k \<le> m" by simp
    from Suc.IH[OF this] show ?thesis using Suc by simp
  qed
qed

lemma retryTrace_odd: "i < m \<Longrightarrow> retryTrace rc a m ! (2 * i + 1) = Slept (backoffDelay (Suc (a + i)))"
proof (induction m arbitrary: a i)
  case 0
  then show ?case by simp
next
  case (Suc m)
  show ?case
  proof (cases i)
    case 0
    then show ?thesis by simp
  next
    case (Suc k)
    with Suc.prems have "k < m" by simp
    from Suc.IH[OF this, of "Suc a"] show ?thesis using Suc by simp
  qed
qed

lemma request_unfold:
  "request e method path options w =
     request_loop e (requestConfigOf method path options w)
       (effectiveRetries (opt_retries options) (config (self w)))
       (dateNow e (clockReads w)) 0 None (w\<lparr>clockReads := Suc (clockReads w)\<rparr>)"
  by (simp add: request_def Let_def Date_now_def)

lemma outcomeAt_clock: "outcomeAt e (w\<lparr>clockReads := c\<rparr>) rc j = outcomeAt e w rc j"
  by (simp add: outcomeAt_def issued_def)

text \<open>A logical call with a non-negative budget, read off its physical attempts.\<close>

lemma request_runs:
  assumes "0 \<le> effectiveRetries (opt_retries options) (config (self w))"
  obtains m where
    "events (snd (request e method path options w)) =
       events w @ retryTrace (requestConfigOf method path options w) 0 m"
    "self (snd (request e method path options w)) = self w"
    "int m \<le> effectiveRetries (opt_retries options) (config (self w))"
    "\<And>j. j < m \<Longrightarrow>
       \<exists>err. outcomeAt e w (requestConfigOf method path options w) j = Inl err \<and> \<not> nonRetryable err"
    "\<And>response. outcomeAt e w (requestConfigOf method path options w) m = Inr response \<Longrightarrow>
       fst (request e method path options w) =
         Inr \<lparr>spr_data = resp_data response, spr_status = resp_status response,
              spr_headers = resp_headers response,
              spr_responseTime = dateNow e (Suc (clockReads w)) - dateNow e (clockReads w)\<rparr>"
    "\<And>err. outcomeAt e w (requestConfigOf method path options w) m = Inl err \<Longrightarrow>
       fst (request e method path options w) = Inl (ProxyFailure err)
       \<and> (nonRetryable err \<or> int m = effectiveRetries (opt_retries options) (config (self w)))"
proof -
  let ?rc = "requestConfigOf method path options w"
  let ?r = "effectiveRetries (opt_retries options) (config (self w))"
  let ?w0 = "w\<lparr>clockReads := Suc (clockReads w)\<rparr>"
  from assms have "int 0 \<le> ?r" by simp
  from loop_char[OF this, of e ?rc "dateNow e (clockReads w)" ?w0 None]
  obtain m where m: "loopRuns e ?rc ?r (dateNow e (clockReads w)) 0 ?w0 (request e method path options w) m"
    unfolding request_unfold by blast
  show thesis
  proof (rule that[of m])
    show "events (snd (request e method path options w)) = events w @ retryTrace ?rc 0 m"
      using m by (simp add: loopRuns_def)
    show "self (snd (request e method path options w)) = self w"
      using m by (simp add: loopRuns_def)
    show "int m \<le> ?r" using m by (simp add: loopRuns_def)
    show "\<exists>err. outcomeAt e w ?rc j = Inl err \<and> \<not> nonRetryable err" if "j < m" for j
      using m that by (simp add: loopRuns_def outcomeAt_clock)
    show "fst (request e method path options w) =
         Inr \<lparr>spr_data = resp_data response, spr_status = resp_status response,
              spr_headers = resp_headers response,
              spr_responseTime = dateNow e (Suc (clockReads w)) - dateNow e (clockReads w)\<rparr>"
      if "outcomeAt e w ?rc m = Inr response" for response
      using m that by (simp add: loopRuns_def outcomeAt_clock)
    show "fst (request e method path options w) = Inl (ProxyFailure err)
       \<and> (nonRetryable err \<or> int m = ?r)"
      if "outcomeAt e w ?rc m = Inl err" for err
      using m that by (simp add: loopRuns_def outcomeAt_clock)
  qed
qed

lemma request_no_budget:
  assumes "effectiveRetries (opt_retries options) (config (self w)) < 0"
  shows "request e method path options w =
           (Inl (GatewayError (''Failed to connect to '' @ serviceName (self w))),
            w\<lparr>clockReads := Suc (clockReads w)\<rparr>)"
  using assms unfolding request_unfold by (simp add: loop_stop throwLast_def)

lemma attempts_append:
  "events w' = events w @ es \<Longrightarrow> attempts w w' = length (issuedOf es)"
  by (simp add: attempts_def issued_def issuedOf_append)

section \<open>The backoff schedule\<close>

lemma backoff_values:
  "backoffDelay 1 = 1000" "backoffDelay 2 = 2000" "backoffDelay 3 = 4000" "backoffDelay 5 = 5000"
  by (simp_all add: backoffDelay_def)

lemma backoff_capped: "4 \<le> n \<Longrightarrow> backoffDelay n = 5000"
proof -
  assume "4 \<le> n"
  then have "3 \<le> n - 1" by simp
  then have "(2::int) ^ 3 \<le> 2 ^ (n - 1)" by (intro power_increasing) simp_all
  then show ?thesis by (simp add: backoffDelay_def)
qed

lemma request_events:
  "events (snd (request e method path options w)) =
     events w @ (case attempts w (snd (request e method path options w)) of
                   0 \<Rightarrow> []
                 | Suc m \<Rightarrow> retryTrace (requestConfigOf method path options w) 0 m)"
proof (cases "0 \<le> effectiveRetries (opt_retries options) (config (self w))")
  case True
  obtain m where m: "events (snd (request e method path options w)) =
       events w @ retryTrace (requestConfigOf method path options w) 0 m"
    by (rule request_runs[OF True, of e "method" "path"], rule that)
  then have "attempts w (snd (request e method path options w)) = Suc m"
    by (simp add: attempts_append issuedOf_retryTrace)
  with m show ?thesis by simp
next
  case False
  then have "effectiveRetries (opt_retries options) (config (self w)) < 0" by simp
  from request_no_budget[OF this, of e "method" "path"]
  show ?thesis by (simp add: attempts_def issued_def)
qed

text \<open>
  Claim C3. Within one logical call the delay slept after the \<open>n\<close>-th failed physical
  attempt and before attempt \<open>n + 1\<close> is \<open>min (1000 * 2 ^ (n - 1)) 5000\<close> milliseconds, with
  no jitter: the delays slept are exactly these values for \<open>n = 1\<close> up to the number of
  attempts minus one, and in the event trace of the call the \<open>n\<close>-th attempt, that sleep and
  attempt \<open>n + 1\<close> follow each other. So 1000, 2000, 4000, and 5000 from the fourth failure on.
\<close>

theorem backoff_schedule:
  assumes "w' = snd (request e method path options w)"
  shows "slept w' = slept w @ map (\<lambda>n. min (1000 * 2 ^ (n - 1)) 5000) [1 ..< attempts w w']
    \<and> (\<forall>n. 1 \<le> n \<and> n < attempts w w' \<longrightarrow>
          drop (length (events w)) (events w') ! (2 * n - 2) = Issued (requestConfigOf method path options w)
        \<and> drop (length (events w)) (events w') ! (2 * n - 1) = Slept (min (1000 * 2 ^ (n - 1)) 5000)
        \<and> drop (length (events w)) (events w') ! (2 * n) = Issued (requestConfigOf method path options w))
    \<and> backoffDelay 1 = 1000 \<and> backoffDelay 2 = 2000 \<and> backoffDelay 3 = 4000
    \<and> backoffDelay 5 = 5000 \<and> (\<forall>n. 4 \<le> n \<longrightarrow> backoffDelay n = 5000)"
proof -
  let ?rc = "requestConfigOf method path options w"
  have delay: "(\<lambda>n. min (1000 * 2 ^ (n - 1)) 5000) = backoffDelay"
    by (rule ext) (simp add: backoffDelay_def)
  have ev: "events w' = events w @ (case attempts w w' of 0 \<Rightarrow> [] | Suc m \<Rightarrow> retryTrace ?rc 0 m)"
    unfolding assms by (rule request_events)
  have sl: "slept w' = slept w @ map backoffDelay [1 ..< attempts w w']"
  proof (cases "attempts w w'")
    case 0
    with ev show ?thesis by (simp add: slept_def)
  next
    case (Suc m)
    with ev show ?thesis by (simp add: slept_def sleptOf_append sleptOf_retryTrace)
  qed
  have pos: "drop (length (events w)) (events w') ! (2 * n - 2) = Issued ?rc
        \<and> drop (length (events w)) (events w') ! (2 * n - 1) = Slept (backoffDelay n)
        \<and> drop (length (events w)) (events w') ! (2 * n) = Issued ?rc"
    if n: "1 \<le> n" "n < attempts w w'" for n
  proof -
    from n obtain m where m: "attempts w w' = Suc m" by (cases "attempts w w'") simp_all
    from n obtain i where i: "n = Suc i" by (cases n) simp_all
    from m ev have new: "drop (length (events w)) (events w') = retryTrace ?rc 0 m" by simp
    from n m i have im: "i < m" by simp
    have "retryTrace ?rc 0 m ! (2 * i) = Issued ?rc" using im by (simp add: retryTrace_even)
    moreover have "retryTrace ?rc 0 m ! (2 * i + 1) = Slept (backoffDelay (Suc (0 + i)))"
      using im by (rule retryTrace_odd)
    moreover have "retryTrace ?rc 0 m ! (2 * Suc i) = Issued ?rc"
      using im by (intro retryTrace_even) simp
    ultimately show ?thesis unfolding new i by simp
  qed
  have cap: "\<forall>n. 4 \<le> n \<longrightarrow> backoffDelay n = 5000"
    using backoff_capped by simp
  have ord: "\<forall>n. 1 \<le> n \<and> n < attempts w w' \<longrightarrow>
          drop (length (events w)) (events w') ! (2 * n - 2) = Issued ?rc
        \<and> drop (length (events w)) (events w') ! (2 * n - 1) = Slept (min (1000 * 2 ^ (n - 1)) 5000)
        \<and> drop (length (events w)) (events w') ! (2 * n) = Issued ?rc"
    using pos unfolding backoffDelay_def by simp
  show ?thesis
    unfolding delay
    by (intro conjI) (rule sl, rule ord, rule backoff_values, rule backoff_values,
        rule backoff_values, rule backoff_values, rule cap)
qed

text \<open>
  The scenario of a refused connection with three retries: four attempts, with sleeps of
  1000, 2000 and 4000 ms between them.
\<close>

theorem backoff_schedule_witness:
  "attempts (freshWorld usersProxy)
     (snd (request refusing ''GET'' ''/api/users'' (spreadOptions None None None) (freshWorld usersProxy))) = 4
   \<and> slept (snd (request refusing ''GET'' ''/api/users'' (spreadOptions None None None)
        (freshWorld usersProxy))) = [1000, 2000, 4000]
   \<and> events (snd (request refusing ''GET'' ''/api/users'' (spreadOptions None None None)
        (freshWorld usersProxy))) ! 1 = Slept 1000
   \<and> events (snd (request refusing ''GET'' ''/api/users'' (spreadOptions None None None)
        (freshWorld usersProxy))) ! 3 = Slept 2000
   \<and> events (snd (request refusing ''GET'' ''/api/users'' (spreadOptions None None None)
        (freshWorld usersProxy))) ! 5 = Slept 4000
   \<and> backoffDelay 5 = 5000"
proof -
  let ?w = "freshWorld usersProxy"
  let ?w' = "snd (request refusing ''GET'' ''/api/users'' (spreadOptions None None None) ?w)"
  have att: "attempts ?w ?w' = 4" by code_simp
  have start: "slept ?w = []" "events ?w = []" by (simp_all add: slept_def freshWorld_def)
  note sched = backoff_schedule[OF refl, of refusing "''GET''" "''/api/users''"
      "spreadOptions None None None" ?w]
  have upt: "[1 ..< 4] = [1, 2, 3 :: nat]" by code_simp
  from sched have "slept ?w' = slept ?w @ map (\<lambda>n. min (1000 * 2 ^ (n - 1)) 5000) [1 ..< attempts ?w ?w']"
    by (rule conjunct1)
  then have s: "slept ?w' = [1000, 2000, 4000]"
    unfolding att start upt by simp
  from sched have "\<forall>n. 1 \<le> n \<and> n < attempts ?w ?w' \<longrightarrow>
          drop (length (events ?w)) (events ?w') ! (2 * n - 2) = Issued (requestConfigOf ''GET'' ''/api/users'' (spreadOptions None None None) ?w)
        \<and> drop (length (events ?w)) (events ?w') ! (2 * n - 1) = Slept (min (1000 * 2 ^ (n - 1)) 5000)
        \<and> drop (length (events ?w)) (events ?w') ! (2 * n) = Issued (requestConfigOf ''GET'' ''/api/users'' (spreadOptions None None None) ?w)"
    by (elim conjE)
  then have at: "1 \<le> n \<Longrightarrow> n < 4 \<Longrightarrow> events ?w' ! (2 * n - 1) = Slept (min (1000 * 2 ^ (n - 1)) 5000)" for n
    unfolding att start by simp
  have e1: "events ?w' ! 1 = Slept 1000" using at[of 1] by simp
  have e3: "events ?w' ! 3 = Slept 2000" using at[of 2] by simp
  have e5: "events ?w' ! 5 = Slept 4000" using at[of 3] by simp
  from sched have b5: "backoffDelay 5 = 5000" by (elim conjE)
  show ?thesis
    by (intro conjI) (rule att, rule s, rule e1, rule e3, rule e5, rule b5)
qed

section \<open>The classifier\<close>

text \<open>
  Claim C4. \<open>transformError\<close> is a function of the service name and the raw failure
  alone, and labels the failure by precedence: a code of ECONNREFUSED or ENOTFOUND gives
  a network error with status 503; otherwise a code of ETIMEDOUT or a message that
  includes \<open>timeout\<close> gives a timeout error with status 504; otherwise a received response
  has its status copied and is itself (data, status, headers) retained on the error;
  anything else gets status 502.
\<close>

theorem transformError_precedence:
  "err_status (transformError name error) =
     Some (if raw_code error = Some ''ECONNREFUSED'' \<or> raw_code error = Some ''ENOTFOUND'' then 503
           else if raw_code error = Some ''ETIMEDOUT'' \<or> messageIncludes (raw_message error) ''timeout''
             then 504
           else (case raw_response error of Some response \<Rightarrow> resp_status response | None \<Rightarrow> 502))
   \<and> err_isNetworkError (transformError name error) =
       (if raw_code error = Some ''ECONNREFUSED'' \<or> raw_code error = Some ''ENOTFOUND''
        then Some True else None)
   \<and> err_isTimeout (transformError name error) =
       (if raw_code error = Some ''ECONNREFUSED'' \<or> raw_code error = Some ''ENOTFOUND'' then None
        else if raw_code error = Some ''ETIMEDOUT'' \<or> messageIncludes (raw_message error) ''timeout''
          then Some True
        else None)
   \<and> err_response (transformError name error) =
       (if raw_code error = Some ''ECONNREFUSED'' \<or> raw_code error = Some ''ENOTFOUND'' then None
        else if raw_code error = Some ''ETIMEDOUT'' \<or> messageIncludes (raw_message error) ''timeout''
          then None
        else raw_response error)"
  by (simp add: transformError_def new_Error_def Let_def split: option.split)

text \<open>One raw failure for each of the four branches.\<close>

theorem transformError_precedence_witness:
  "err_status (transformError ''users''
      \<lparr>raw_code = Some ''ECONNREFUSED'', raw_message = Some ''connect ECONNREFUSED 127.0.0.1:8080'',
       raw_response = None\<rparr>) = Some 503
   \<and> err_isNetworkError (transformError ''users''
      \<lparr>raw_code = Some ''ECONNREFUSED'', raw_message = Some ''connect ECONNREFUSED 127.0.0.1:8080'',
       raw_response = None\<rparr>) = Some True
   \<and> err_status (transformError ''users''
      \<lparr>raw_code = Some ''ECONNABORTED'', raw_message = Some ''timeout of 5000ms exceeded'',
       raw_response = None\<rparr>) = Some 504
   \<and> err_isTimeout (transformError ''users''
      \<lparr>raw_code = Some ''ECONNABORTED'', raw_message = Some ''timeout of 5000ms exceeded'',
       raw_response = None\<rparr>) = Some True
   \<and> err_status (transformError ''users''
      \<lparr>raw_code = Some ''ERR_BAD_REQUEST'', raw_message = Some ''Request failed with status code 404'',
       raw_response = Some \<lparr>resp_data = JStr ''no such user'', resp_status = 404, resp_headers = []\<rparr>\<rparr>)
       = Some 404
   \<and> err_response (transformError ''users''
      \<lparr>raw_code = Some ''ERR_BAD_REQUEST'', raw_message = Some ''Request failed with status code 404'',
       raw_response = Some \<lparr>resp_data = JStr ''no such user'', resp_status = 404, resp_headers = []\<rparr>\<rparr>)
       = Some \<lparr>resp_data = JStr ''no such user'', resp_status = 404, resp_headers = []\<rparr>
   \<and> err_status (transformError ''users''
      \<lparr>raw_code = None, raw_message = Some ''socket hang up'', raw_response = None\<rparr>) = Some 502"
  using
    transformError_precedence[of "''users''"
      "\<lparr>raw_code = Some ''ECONNREFUSED'', raw_message = Some ''connect ECONNREFUSED 127.0.0.1:8080'',
        raw_response = None\<rparr>"]
    transformError_precedence[of "''users''"
      "\<lparr>raw_code = Some ''ECONNABORTED'', raw_message = Some ''timeout of 5000ms exceeded'',
        raw_response = None\<rparr>"]
    transformError_precedence[of "''users''"
      "\<lparr>raw_code = Some ''ERR_BAD_REQUEST'', raw_message = Some ''Request failed with status code 404'',
        raw_response = Some \<lparr>resp_data = JStr ''no such user'', resp_status = 404, resp_headers = []\<rparr>\<rparr>"]
    transformError_precedence[of "''users''"
      "\<lparr>raw_code = None, raw_message = Some ''socket hang up'', raw_response = None\<rparr>"]
  by (simp add: messageIncludes_def)

section \<open>How many physical attempts a logical call makes\<close>

lemma request_callRuns:
  assumes "0 \<le> effectiveRetries (opt_retries options) (config (self w))"
  shows "\<exists>m. callRuns e method path options w m"
proof (rule request_runs[OF assms, of e "method" "path"])
  fix m
  assume ev: "events (snd (request e method path options w)) =
       events w @ retryTrace (requestConfigOf method path options w) 0 m"
    and rest: "self (snd (request e method path options w)) = self w"
    "int m \<le> effectiveRetries (opt_retries options) (config (self w))"
    "\<And>j. j < m \<Longrightarrow>
       \<exists>err. outcomeAt e w (requestConfigOf method path options w) j = Inl err \<and> \<not> nonRetryable err"
    "\<And>response. outcomeAt e w (requestConfigOf method path options w) m = Inr response \<Longrightarrow>
       fst (request e method path options w) =
         Inr \<lparr>spr_data = resp_data response, spr_status = resp_status response,
              spr_headers = resp_headers response,
              spr_responseTime = dateNow e (Suc (clockReads w)) - dateNow e (clockReads w)\<rparr>"
    "\<And>err. outcomeAt e w (requestConfigOf method path options w) m = Inl err \<Longrightarrow>
       fst (request e method path options w) = Inl (ProxyFailure err)
       \<and> (nonRetryable err \<or> int m = effectiveRetries (opt_retries options) (config (self w)))"
  from ev have "attempts w (snd (request e method path options w)) = Suc m"
    by (simp add: attempts_append issuedOf_retryTrace)
  with ev rest have "callRuns e method path options w m"
    unfolding callRuns_def Let_def by simp
  then show ?thesis ..
qed


lemma nonRetryable_client:
  "err_status err = Some s \<Longrightarrow> 400 \<le> s \<Longrightarrow> s < 500 \<Longrightarrow> nonRetryable err"
  by (simp add: nonRetryable_def)

text \<open>
  Claim C2. For a logical call with retry budget \<open>r \<ge> 0\<close>: if every physical attempt
  fails with an error the loop does not break on, exactly \<open>r + 1\<close> attempts are issued and
  the call throws; an attempt that fails with a client error (status in [400, 500)) is the
  last one, so a call whose every attempt returns 400 issues exactly one attempt and
  throws; an attempt that succeeds is the last one and the call returns its data, so a
  success after \<open>k \<le> r\<close> such failures means exactly \<open>k + 1\<close> attempts (three for two
  failures followed by a success with \<open>r = 2\<close>).
\<close>

theorem request_attempt_count:
  assumes r: "r = effectiveRetries (opt_retries options) (config (self w))"
    and rc: "rc = requestConfigOf method path options w"
    and res: "res = fst (request e method path options w)"
    and w': "w' = snd (request e method path options w)"
    and budget: "0 \<le> r"
  shows
    "((\<forall>j. \<exists>err. outcomeAt e w rc j = Inl err \<and> \<not> nonRetryable err) \<longrightarrow>
        attempts w w' = nat r + 1 \<and> (\<exists>err. res = Inl (ProxyFailure err)))
     \<and> (\<forall>j err s. j < attempts w w' \<and> outcomeAt e w rc j = Inl err \<and> err_status err = Some s
            \<and> 400 \<le> s \<and> s < 500 \<longrightarrow>
          attempts w w' = j + 1 \<and> res = Inl (ProxyFailure err))
     \<and> ((\<forall>j. \<exists>err. outcomeAt e w rc j = Inl err \<and> err_status err = Some 400) \<longrightarrow>
          attempts w w' = 1 \<and> (\<exists>err. res = Inl (ProxyFailure err)))
     \<and> (\<forall>j response. j < attempts w w' \<and> outcomeAt e w rc j = Inr response \<longrightarrow>
          attempts w w' = j + 1 \<and> (\<exists>sr. res = Inr sr \<and> spr_data sr = resp_data response))
     \<and> (\<forall>k response. int k \<le> r
            \<and> (\<forall>j<k. \<exists>err. outcomeAt e w rc j = Inl err \<and> \<not> nonRetryable err)
            \<and> outcomeAt e w rc k = Inr response \<longrightarrow>
          attempts w w' = k + 1 \<and> (\<exists>sr. res = Inr sr \<and> spr_data sr = resp_data response))"
proof -
  from budget r have "0 \<le> effectiveRetries (opt_retries options) (config (self w))" by simp
  from request_callRuns[OF this]
  obtain m where "callRuns e method path options w m" by blast
  then have att: "attempts w w' = Suc m"
    and mr: "int m \<le> r"
    and early: "\<And>j. j < m \<Longrightarrow> \<exists>err. outcomeAt e w rc j = Inl err \<and> \<not> nonRetryable err"
    and ok: "\<And>response. outcomeAt e w rc m = Inr response \<Longrightarrow>
               \<exists>sr. res = Inr sr \<and> spr_data sr = resp_data response"
    and ko: "\<And>err. outcomeAt e w rc m = Inl err \<Longrightarrow>
               res = Inl (ProxyFailure err) \<and> (nonRetryable err \<or> int m = r)"
    unfolding callRuns_def Let_def r rc res w' by simp_all
  have allfail: "attempts w w' = nat r + 1 \<and> (\<exists>err. res = Inl (ProxyFailure err))"
    if all: "\<forall>j. \<exists>err. outcomeAt e w rc j = Inl err \<and> \<not> nonRetryable err"
  proof -
    from all obtain err where err: "outcomeAt e w rc m = Inl err" "\<not> nonRetryable err" by blast
    from ko[OF err(1)] err(2) have "res = Inl (ProxyFailure err)" "int m = r" by simp_all
    with att show ?thesis by auto
  qed
  have client: "attempts w w' = j + 1 \<and> res = Inl (ProxyFailure err)"
    if j: "j < attempts w w'" and out: "outcomeAt e w rc j = Inl err"
      and s: "err_status err = Some s" "400 \<le> s" "s < 500" for j err s
  proof -
    from s have nr: "nonRetryable err" by (rule nonRetryable_client)
    have "\<not> j < m" using early[of j] out nr by auto
    with j att have "j = m" by simp
    with att ko[of err] out show ?thesis by simp
  qed
  have all400: "attempts w w' = 1 \<and> (\<exists>err. res = Inl (ProxyFailure err))"
    if all: "\<forall>j. \<exists>err. outcomeAt e w rc j = Inl err \<and> err_status err = Some 400"
  proof -
    from all obtain err where err: "outcomeAt e w rc 0 = Inl err" "err_status err = Some 400"
      by blast
    have "0 < attempts w w'" using att by simp
    from client[OF this err(1) err(2)] show ?thesis by auto
  qed
  have success: "attempts w w' = j + 1 \<and> (\<exists>sr. res = Inr sr \<and> spr_data sr = resp_data response)"
    if j: "j < attempts w w'" and out: "outcomeAt e w rc j = Inr response" for j response
  proof -
    have "\<not> j < m" using early[of j] out by auto
    with j att have "j = m" by simp
    with att ok[of response] out show ?thesis by simp
  qed
  have first: "attempts w w' = k + 1 \<and> (\<exists>sr. res = Inr sr \<and> spr_data sr = resp_data response)"
    if k: "int k \<le> r" and before: "\<forall>j<k. \<exists>err. outcomeAt e w rc j = Inl err \<and> \<not> nonRetryable err"
      and out: "outcomeAt e w rc k = Inr response" for k response
  proof -
    have "\<not> k < m" using early[of k] out by auto
    moreover have "\<not> m < k"
    proof
      assume less: "m < k"
      with before obtain err where err: "outcomeAt e w rc m = Inl err" "\<not> nonRetryable err" by blast
      from ko[OF err(1)] err(2) have "int m = r" by simp
      with less k show False by simp
    qed
    ultimately have "k = m" by simp
    with att ok[of response] out show ?thesis by simp
  qed
  show ?thesis
    using allfail client all400 success first by blast
qed

text \<open>
  The three runs of the unit tests on a proxy with two retries: two 500s then a success,
  a 400 on every attempt, a 500 on every attempt.
\<close>

lemma testProxy_budget:
  "effectiveRetries (opt_retries (spreadOptions d p None)) (config (self (freshWorld testProxy))) = 2"
  by (simp add: effectiveRetries_def spreadOptions_def freshWorld_def testProxy_def)

theorem request_attempt_count_witness:
  "attempts (freshWorld testProxy)
     (snd (request failTwiceThenOk ''GET'' ''/api/test'' (spreadOptions None None None)
        (freshWorld testProxy))) = 3
   \<and> (\<exists>sr. fst (request failTwiceThenOk ''GET'' ''/api/test'' (spreadOptions None None None)
              (freshWorld testProxy)) = Inr sr
          \<and> spr_data sr = JObj [(''success'', JBool True)])
   \<and> attempts (freshWorld testProxy)
       (snd (request alwaysBadRequest ''GET'' ''/api/test'' (spreadOptions None None None)
          (freshWorld testProxy))) = 1
   \<and> (\<exists>err. fst (request alwaysBadRequest ''GET'' ''/api/test'' (spreadOptions None None None)
          (freshWorld testProxy)) = Inl (ProxyFailure err))
   \<and> attempts (freshWorld testProxy)
       (snd (request alwaysServerError ''GET'' ''/api/test'' (spreadOptions None None None)
          (freshWorld testProxy))) = 3
   \<and> (\<exists>err. fst (request alwaysServerError ''GET'' ''/api/test'' (spreadOptions None None None)
          (freshWorld testProxy)) = Inl (ProxyFailure err))"
proof -
  let ?w = "freshWorld testProxy"
  let ?o = "spreadOptions None None None"
  let ?rc = "requestConfigOf ''GET'' ''/api/test'' ?o ?w"
  have budget: "0 \<le> effectiveRetries (opt_retries ?o) (config (self ?w))"
    by (simp add: testProxy_budget)
  have r2: "effectiveRetries (opt_retries ?o) (config (self ?w)) = 2"
    by (rule testProxy_budget)
  note ok = request_attempt_count[OF refl refl refl refl budget, of failTwiceThenOk "''GET''" "''/api/test''"]
  note bad = request_attempt_count[OF refl refl refl refl budget, of alwaysBadRequest "''GET''" "''/api/test''"]
  note srv = request_attempt_count[OF refl refl refl refl budget, of alwaysServerError "''GET''" "''/api/test''"]
  have "int 2 \<le> effectiveRetries (opt_retries ?o) (config (self ?w))"
    unfolding r2 by simp
  moreover have "\<forall>j<2. \<exists>err. outcomeAt failTwiceThenOk ?w ?rc j = Inl err \<and> \<not> nonRetryable err"
    by (simp add: outcomeAt_def failTwiceThenOk_def issued_def freshWorld_def nonRetryable_def
        serverError500_def new_Error_def)
  moreover have "outcomeAt failTwiceThenOk ?w ?rc 2 = Inr successResponse"
    by (simp add: outcomeAt_def failTwiceThenOk_def issued_def freshWorld_def)
  ultimately have a: "attempts ?w (snd (request failTwiceThenOk ''GET'' ''/api/test'' ?o ?w)) = 2 + 1
      \<and> (\<exists>sr. fst (request failTwiceThenOk ''GET'' ''/api/test'' ?o ?w) = Inr sr
             \<and> spr_data sr = resp_data successResponse)"
    using ok by blast
  have "\<forall>j. \<exists>err. outcomeAt alwaysBadRequest ?w ?rc j = Inl err \<and> err_status err = Some 400"
    by (simp add: outcomeAt_def alwaysBadRequest_def badRequest400_def new_Error_def)
  with bad have b: "attempts ?w (snd (request alwaysBadRequest ''GET'' ''/api/test'' ?o ?w)) = 1
      \<and> (\<exists>err. fst (request alwaysBadRequest ''GET'' ''/api/test'' ?o ?w) = Inl (ProxyFailure err))"
    by blast
  have "\<forall>j. \<exists>err. outcomeAt alwaysServerError ?w ?rc j = Inl err \<and> \<not> nonRetryable err"
    by (simp add: outcomeAt_def alwaysServerError_def serverError500_def new_Error_def nonRetryable_def)
  with srv have c: "attempts ?w (snd (request alwaysServerError ''GET'' ''/api/test'' ?o ?w))
        = nat (effectiveRetries (opt_retries ?o) (config (self ?w))) + 1
      \<and> (\<exists>err. fst (request alwaysServerError ''GET'' ''/api/test'' ?o ?w) = Inl (ProxyFailure err))"
    by blast
  from a b c show ?thesis
    unfolding r2 by (simp add: successResponse_def)
qed

section \<open>What a failed call throws\<close>

text \<open>
  Claim C8. When a logical call with a budget \<open>r \<ge> 0\<close> ends in failure, the value thrown
  is exactly the error the last physical attempt was rejected with, unchanged; through
  the proxy's own interceptor that is the classified error \<open>transformError\<close> built for that
  attempt. A call whose last attempt failed never returns a value instead.
\<close>

theorem request_failure_propagates:
  assumes r: "r = effectiveRetries (opt_retries options) (config (self w))"
    and rc: "rc = requestConfigOf method path options w"
    and w': "w' = snd (request e method path options w)"
    and budget: "0 \<le> r"
  shows
    "1 \<le> attempts w w'
     \<and> (\<forall>ex. fst (request e method path options w) = Inl ex \<longrightarrow>
          (\<exists>err. outcomeAt e w rc (attempts w w' - 1) = Inl err \<and> ex = ProxyFailure err))
     \<and> (\<forall>err. outcomeAt e w rc (attempts w w' - 1) = Inl err \<longrightarrow>
          fst (request e method path options w) = Inl (ProxyFailure err))
     \<and> (\<forall>name transport ex.
          axiosRequest e = intercepted name transport
          \<and> fst (request e method path options w) = Inl ex \<longrightarrow>
          (\<exists>raw. transport (length (issued w) + (attempts w w' - 1)) rc = Inl raw
                 \<and> ex = ProxyFailure (transformError name raw)))"
proof -
  from budget r have "0 \<le> effectiveRetries (opt_retries options) (config (self w))" by simp
  from request_callRuns[OF this]
  obtain m where "callRuns e method path options w m" by blast
  then have att: "attempts w w' = Suc m"
    and ok: "\<And>response. outcomeAt e w rc m = Inr response \<Longrightarrow>
               \<exists>sr. fst (request e method path options w) = Inr sr"
    and ko: "\<And>err. outcomeAt e w rc m = Inl err \<Longrightarrow>
               fst (request e method path options w) = Inl (ProxyFailure err)"
    unfolding callRuns_def Let_def r rc w' by simp_all
  have last: "attempts w w' - 1 = m" using att by simp
  have thrown: "\<exists>err. outcomeAt e w rc m = Inl err \<and> ex = ProxyFailure err"
    if fails: "fst (request e method path options w) = Inl ex" for ex
  proof (cases "outcomeAt e w rc m")
    case (Inl err)
    from ko[OF this] fails have "ex = ProxyFailure err" by simp
    with Inl show ?thesis by simp
  next
    case (Inr response)
    from ok[OF this] fails show ?thesis by auto
  qed
  have classified: "\<exists>raw. transport (length (issued w) + m) rc = Inl raw
                 \<and> ex = ProxyFailure (transformError name raw)"
    if inst: "axiosRequest e = intercepted name transport"
      and fails: "fst (request e method path options w) = Inl ex" for name transport ex
  proof -
    from thrown[OF fails] obtain err where err: "outcomeAt e w rc m = Inl err" "ex = ProxyFailure err"
      by blast
    from err(1) inst have "intercepted name transport (length (issued w) + m) rc = Inl err"
      by (simp add: outcomeAt_def)
    then obtain raw where "transport (length (issued w) + m) rc = Inl raw" "err = transformError name raw"
      by (auto simp add: intercepted_def split: sum.splits)
    with err(2) show ?thesis by simp
  qed
  show ?thesis
    unfolding last using att thrown ko classified by simp
qed

text \<open>
  The refused connection with three retries: the call throws the network error with
  status 503 that the classifier built.
\<close>

theorem request_failure_propagates_witness:
  "fst (request refusing ''GET'' ''/api/users'' (spreadOptions None None None)
        (freshWorld usersProxy)) = Inl (ProxyFailure (transformError ''users'' connectionRefused))
   \<and> err_status (transformError ''users'' connectionRefused) = Some 503
   \<and> err_isNetworkError (transformError ''users'' connectionRefused) = Some True"
proof -
  let ?w = "freshWorld usersProxy"
  let ?o = "spreadOptions None None None"
  let ?rc = "requestConfigOf ''GET'' ''/api/users'' ?o ?w"
  let ?R = "request refusing ''GET'' ''/api/users'' ?o ?w"
  have budget: "0 \<le> effectiveRetries (opt_retries ?o) (config (self ?w))"
    by (simp add: effectiveRetries_def spreadOptions_def freshWorld_def usersProxy_def)
  note thrownFact =
    request_failure_propagates[OF refl refl refl budget, of refusing "''GET''" "''/api/users''"]
  have out: "outcomeAt refusing ?w ?rc (attempts ?w (snd ?R) - 1)
      = Inl (transformError ''users'' connectionRefused)"
    by (simp add: outcomeAt_def refusing_def intercepted_def)
  from thrownFact have "\<forall>err. outcomeAt refusing ?w ?rc (attempts ?w (snd ?R) - 1) = Inl err \<longrightarrow>
          fst ?R = Inl (ProxyFailure err)"
    by (elim conjE)
  with out have fails: "fst ?R = Inl (ProxyFailure (transformError ''users'' connectionRefused))"
    by blast
  have s: "err_status (transformError ''users'' connectionRefused) = Some 503"
    "err_isNetworkError (transformError ''users'' connectionRefused) = Some True"
    by (simp_all add: transformError_def connectionRefused_def new_Error_def Let_def)
  from fails s show ?thesis by simp
qed

section \<open>Errors without a status\<close>

text \<open>
  Claim C10. When every physical attempt fails with an error that carries no status at
  all, the loop treats each failure as retryable: with budget \<open>r \<ge> 0\<close> it issues exactly
  \<open>r + 1\<close> attempts, sleeps the backoff delay between them, and then throws such an error.
\<close>

theorem statusless_failures_retried:
  assumes r: "r = effectiveRetries (opt_retries options) (config (self w))"
    and rc: "rc = requestConfigOf method path options w"
    and w': "w' = snd (request e method path options w)"
    and budget: "0 \<le> r"
    and all: "\<forall>j. \<exists>err. outcomeAt e w rc j = Inl err \<and> err_status err = None"
  shows
    "attempts w w' = nat r + 1
     \<and> events w' = events w @ retryTrace rc 0 (nat r)
     \<and> slept w' = slept w @ map backoffDelay [1 ..< nat r + 1]
     \<and> (\<exists>err. fst (request e method path options w) = Inl (ProxyFailure err)
              \<and> err_status err = None)"
proof -
  from budget r have "0 \<le> effectiveRetries (opt_retries options) (config (self w))" by simp
  from request_callRuns[OF this]
  obtain m where "callRuns e method path options w m" by blast
  then have att: "attempts w w' = Suc m"
    and ev: "events w' = events w @ retryTrace rc 0 m"
    and ko: "\<And>err. outcomeAt e w rc m = Inl err \<Longrightarrow>
               fst (request e method path options w) = Inl (ProxyFailure err)
               \<and> (nonRetryable err \<or> int m = r)"
    unfolding callRuns_def Let_def r rc w' by simp_all
  from all obtain err where err: "outcomeAt e w rc m = Inl err" "err_status err = None" by blast
  from err(2) have "\<not> nonRetryable err" by (simp add: nonRetryable_def)
  with ko[OF err(1)] have thrown: "fst (request e method path options w) = Inl (ProxyFailure err)"
    and m: "m = nat r" by auto
  have sl: "slept w' = slept w @ map backoffDelay [1 ..< nat r + 1]"
    using ev unfolding m by (simp add: slept_def sleptOf_append sleptOf_retryTrace)
  from att ev sl thrown err(2) show ?thesis unfolding m by simp
qed

text \<open>A mocked instance that rejects with a bare error, on a proxy with two retries.\<close>

theorem statusless_failures_retried_witness:
  "attempts (freshWorld testProxy)
     (snd (request alwaysBareError ''GET'' ''/api/test'' (spreadOptions None None None)
        (freshWorld testProxy))) = 3
   \<and> slept (snd (request alwaysBareError ''GET'' ''/api/test'' (spreadOptions None None None)
        (freshWorld testProxy))) = [1000, 2000]
   \<and> (\<exists>err. fst (request alwaysBareError ''GET'' ''/api/test'' (spreadOptions None None None)
        (freshWorld testProxy)) = Inl (ProxyFailure err) \<and> err_status err = None)"
proof -
  let ?w = "freshWorld testProxy"
  let ?o = "spreadOptions None None None"
  let ?rc = "requestConfigOf ''GET'' ''/api/test'' ?o ?w"
  have r2: "effectiveRetries (opt_retries ?o) (config (self ?w)) = 2"
    by (rule testProxy_budget)
  have budget: "0 \<le> effectiveRetries (opt_retries ?o) (config (self ?w))"
    unfolding r2 by simp
  have all: "\<forall>j. \<exists>err. outcomeAt alwaysBareError ?w ?rc j = Inl err \<and> err_status err = None"
    by (simp add: outcomeAt_def alwaysBareError_def bareError_def new_Error_def)
  note run = statusless_failures_retried[OF refl refl refl budget all]
  have upt: "[1 ..< nat 2 + 1] = [1, 2 :: nat]" by code_simp
  have start: "slept ?w = []" by (simp add: slept_def freshWorld_def)
  from run show ?thesis
    unfolding r2 upt start by (simp add: backoffDelay_def)
qed

section \<open>The health check\<close>

text \<open>
  Claim C7. \<open>healthCheck\<close> never throws. Whatever the proxy's configured retry budget,
  it issues exactly one GET to \<open>/health\<close> with a timeout of 5000 ms and never sleeps; it
  resolves to a healthy result with a response time when that request succeeds, and to an
  unhealthy result with a response time and the failure's message when it fails.
\<close>

theorem healthCheck_never_throws:
  "\<exists>result. fst (healthCheck e w) = Inr result
     \<and> events (snd (healthCheck e w)) =
         events w @ [Issued \<lparr>rc_method = ''get'', rc_url = ''/health'', rc_data = None,
                            rc_params = None, rc_timeout = 5000\<rparr>]
     \<and> self (snd (healthCheck e w)) = self w
     \<and> (case outcomeAt e w healthRequest 0 of
           Inr response \<Rightarrow>
             result = \<lparr>hc_status = healthy,
                       hc_responseTime = Some (dateNow e (Suc (clockReads w)) - dateNow e (clockReads w)),
                       hc_error = None\<rparr>
         | Inl error \<Rightarrow>
             result = \<lparr>hc_status = unhealthy,
                       hc_responseTime = Some (dateNow e (Suc (clockReads w)) - dateNow e (clockReads w)),
                       hc_error = Some (err_message error)\<rparr>)"
  by (simp add: healthCheck_def Let_def Date_now_def axios_call_def outcomeAt_def issued_def
      healthRequest_def split: sum.split)

text \<open>A refused connection reports unhealthy with the classifier's message; a 200 reports healthy.\<close>

theorem healthCheck_never_throws_witness:
  "fst (healthCheck refusing (freshWorld usersProxy)) =
     Inr \<lparr>hc_status = unhealthy, hc_responseTime = Some 1000,
          hc_error = Some ''Service users is unavailable''\<rparr>
   \<and> fst (healthCheck alwaysOk (freshWorld usersProxy)) =
     Inr \<lparr>hc_status = healthy, hc_responseTime = Some 1000, hc_error = None\<rparr>
   \<and> events (snd (healthCheck refusing (freshWorld usersProxy))) =
       [Issued \<lparr>rc_method = ''get'', rc_url = ''/health'', rc_data = None, rc_params = None,
                rc_timeout = 5000\<rparr>]"
proof -
  let ?w = "freshWorld usersProxy"
  have o1: "outcomeAt refusing ?w healthRequest 0 = Inl (transformError ''users'' connectionRefused)"
    by (simp add: outcomeAt_def refusing_def intercepted_def)
  have o2: "outcomeAt alwaysOk ?w healthRequest 0 = Inr okResponse"
    by (simp add: outcomeAt_def alwaysOk_def)
  have m: "err_message (transformError ''users'' connectionRefused) = ''Service users is unavailable''"
    by (simp add: transformError_def connectionRefused_def new_Error_def Let_def)
  have t1: "dateNow refusing (Suc (clockReads ?w)) - dateNow refusing (clockReads ?w) = 1000"
    by (simp add: refusing_def freshWorld_def)
  have t2: "dateNow alwaysOk (Suc (clockReads ?w)) - dateNow alwaysOk (clockReads ?w) = 1000"
    by (simp add: alwaysOk_def freshWorld_def)
  have ev: "events ?w = []" by (simp add: freshWorld_def)
  from healthCheck_never_throws[of refusing ?w] healthCheck_never_throws[of alwaysOk ?w]
  show ?thesis
    unfolding o1 o2 t1 t2 ev using m by auto
qed

section \<open>The proxy object is never modified\<close>

lemma request_frame:
  "self (snd (request e method path options w)) = self w
   \<and> issued (snd (request e method path options w)) =
       issued w @ replicate (attempts w (snd (request e method path options w)))
                    (requestConfigOf method path options w)
   \<and> int (attempts w (snd (request e method path options w)))
       \<le> max 0 (effectiveRetries (opt_retries options) (config (self w)) + 1)"
proof (cases "0 \<le> effectiveRetries (opt_retries options) (config (self w))")
  case True
  from request_callRuns[OF True]
  obtain m where "callRuns e method path options w m" by blast
  then have "attempts w (snd (request e method path options w)) = Suc m"
    and "events (snd (request e method path options w)) =
           events w @ retryTrace (requestConfigOf method path options w) 0 m"
    and "self (snd (request e method path options w)) = self w"
    and "int m \<le> effectiveRetries (opt_retries options) (config (self w))"
    unfolding callRuns_def Let_def by simp_all
  then show ?thesis
    by (simp add: issued_def issuedOf_append issuedOf_retryTrace)
next
  case False
  then have "effectiveRetries (opt_retries options) (config (self w)) < 0" by simp
  from request_no_budget[OF this, of e "method" "path"]
  show ?thesis by (simp add: attempts_def issued_def)
qed

lemma healthCheck_self: "self (snd (healthCheck e w)) = self w"
  by (simp add: healthCheck_def Let_def Date_now_def axios_call_def split: sum.split)

lemma perform_self: "self (perform e op w) = self w"
  by (cases op) (simp_all add: get_def post_def put_def delete_def patch_def request_frame
      healthCheck_self)

lemma performAll_self: "self (performAll e ops w) = self w"
  by (induction ops arbitrary: w) (simp_all add: perform_self)

text \<open>Every verb method is \<open>request\<close> with the operation's own overrides spread in.\<close>

lemma perform_is_request:
  assumes "op \<noteq> OpHealthCheck"
  shows "\<exists>verb url d p. perform e op w = snd (request e verb url (spreadOptions d p (overridesOf op)) w)"
proof (cases op)
  case (OpGet url params options)
  then have "perform e op w = snd (request e ''GET'' url (spreadOptions None params (overridesOf op)) w)"
    by (simp add: get_def)
  then show ?thesis by blast
next
  case (OpPost url d options)
  then have "perform e op w = snd (request e ''POST'' url (spreadOptions d None (overridesOf op)) w)"
    by (simp add: post_def)
  then show ?thesis by blast
next
  case (OpPut url d options)
  then have "perform e op w = snd (request e ''PUT'' url (spreadOptions d None (overridesOf op)) w)"
    by (simp add: put_def)
  then show ?thesis by blast
next
  case (OpDelete url options)
  then have "perform e op w = snd (request e ''DELETE'' url (spreadOptions None None (overridesOf op)) w)"
    by (simp add: delete_def)
  then show ?thesis by blast
next
  case (OpPatch url d options)
  then have "perform e op w = snd (request e ''PATCH'' url (spreadOptions d None (overridesOf op)) w)"
    by (simp add: patch_def)
  then show ?thesis by blast
next
  case OpHealthCheck
  with assms show ?thesis by simp
qed

text \<open>
  Claim C9. After any sequence of operations (the five verbs, with or without per-call
  overrides, and the health check) the proxy object is the one that was constructed:
  same service name, same base URL, timeout, retries and headers. The physical requests
  of any verb call made afterwards carry the timeout of that call's own override if it
  has one and the configured timeout otherwise, and their number is bounded by that
  call's own override budget, or by the configured one when it passes none: an override
  reaches no further than the call it was passed to.
\<close>

theorem proxy_configuration_immutable:
  "self (performAll e ops w) = self w
   \<and> (\<forall>op. op \<noteq> OpHealthCheck \<longrightarrow>
        (\<forall>rq \<in> set (drop (length (issued (performAll e ops w)))
                      (issued (perform e op (performAll e ops w)))).
            rc_timeout rq =
              effectiveTimeout (case overridesOf op of None \<Rightarrow> None | Some co \<Rightarrow> co_timeout co)
                (config (self w)))
        \<and> int (attempts (performAll e ops w) (perform e op (performAll e ops w)))
            \<le> max 0 (effectiveRetries (case overridesOf op of None \<Rightarrow> None | Some co \<Rightarrow> co_retries co)
                        (config (self w)) + 1)
        \<and> self (perform e op (performAll e ops w)) = self w)
   \<and> (\<forall>op. op \<noteq> OpHealthCheck \<and> overridesOf op = None \<longrightarrow>
        (\<forall>rq \<in> set (drop (length (issued (performAll e ops w)))
                      (issued (perform e op (performAll e ops w)))).
            rc_timeout rq = cfg_timeout (config (self w)))
        \<and> int (attempts (performAll e ops w) (perform e op (performAll e ops w)))
            \<le> max 0 (cfg_retries (config (self w)) + 1))"
proof -
  let ?w1 = "performAll e ops w"
  have same: "self ?w1 = self w" by (rule performAll_self)
  have call: "(\<forall>rq \<in> set (drop (length (issued ?w1)) (issued (perform e op ?w1))).
            rc_timeout rq =
              effectiveTimeout (case overridesOf op of None \<Rightarrow> None | Some co \<Rightarrow> co_timeout co)
                (config (self w)))
        \<and> int (attempts ?w1 (perform e op ?w1))
            \<le> max 0 (effectiveRetries (case overridesOf op of None \<Rightarrow> None | Some co \<Rightarrow> co_retries co)
                        (config (self w)) + 1)
        \<and> self (perform e op ?w1) = self w"
    if op: "op \<noteq> OpHealthCheck" for op
  proof -
    from perform_is_request[OF op, of e ?w1]
    obtain verb url d p where
      run: "perform e op ?w1 = snd (request e verb url (spreadOptions d p (overridesOf op)) ?w1)"
      by blast
    let ?o = "spreadOptions d p (overridesOf op)"
    note frame = request_frame[of e verb url ?o ?w1]
    have t: "rc_timeout (requestConfigOf verb url ?o ?w1) =
        effectiveTimeout (case overridesOf op of None \<Rightarrow> None | Some co \<Rightarrow> co_timeout co)
          (config (self w))"
      by (simp add: requestConfigOf_def spreadOptions_def same)
    have r: "effectiveRetries (opt_retries ?o) (config (self ?w1)) =
        effectiveRetries (case overridesOf op of None \<Rightarrow> None | Some co \<Rightarrow> co_retries co)
          (config (self w))"
      by (simp add: spreadOptions_def same)
    from frame have "drop (length (issued ?w1)) (issued (perform e op ?w1)) =
        replicate (attempts ?w1 (perform e op ?w1)) (requestConfigOf verb url ?o ?w1)"
      unfolding run by simp
    then have "\<forall>rq \<in> set (drop (length (issued ?w1)) (issued (perform e op ?w1))).
        rq = requestConfigOf verb url ?o ?w1"
      by simp
    with t have "\<forall>rq \<in> set (drop (length (issued ?w1)) (issued (perform e op ?w1))).
        rc_timeout rq = effectiveTimeout (case overridesOf op of None \<Rightarrow> None | Some co \<Rightarrow> co_timeout co)
          (config (self w))"
      by (metis (no_types, lifting))
    moreover from frame r have "int (attempts ?w1 (perform e op ?w1))
            \<le> max 0 (effectiveRetries (case overridesOf op of None \<Rightarrow> None | Some co \<Rightarrow> co_retries co)
                        (config (self w)) + 1)"
      unfolding run by simp
    moreover have "self (perform e op ?w1) = self w"
      by (simp add: perform_self same)
    ultimately show ?thesis by blast
  qed
  have dflt: "(\<forall>rq \<in> set (drop (length (issued ?w1)) (issued (perform e op ?w1))).
            rc_timeout rq = cfg_timeout (config (self w)))
        \<and> int (attempts ?w1 (perform e op ?w1)) \<le> max 0 (cfg_retries (config (self w)) + 1)"
    if op: "op \<noteq> OpHealthCheck" and none: "overridesOf op = None" for op
    using call[OF op] unfolding none by (simp add: effectiveTimeout_def effectiveRetries_def)
  from same call dflt show ?thesis by blast
qed

text \<open>
  A GET overriding retries to 0 and timeout to 100, then a health check, then a plain GET:
  the proxy is unchanged, the overriding call used timeout 100 once, and the plain call
  is back at the configured 15000 ms and budget of three retries.
\<close>

theorem proxy_configuration_immutable_witness:
  "self (performAll refusing [impatientGet, OpHealthCheck] (freshWorld usersProxy)) = usersProxy
   \<and> rc_timeout (issued (perform refusing impatientGet (freshWorld usersProxy)) ! 0) = 100
   \<and> int (attempts (freshWorld usersProxy) (perform refusing impatientGet (freshWorld usersProxy))) \<le> 1
   \<and> rc_timeout (issued (perform refusing plainGet
         (performAll refusing [impatientGet, OpHealthCheck] (freshWorld usersProxy))) ! 2) = 15000
   \<and> int (attempts (performAll refusing [impatientGet, OpHealthCheck] (freshWorld usersProxy))
         (perform refusing plainGet
           (performAll refusing [impatientGet, OpHealthCheck] (freshWorld usersProxy)))) \<le> 4"
proof -
  let ?w = "freshWorld usersProxy"
  let ?wo = "perform refusing impatientGet ?w"
  let ?w1 = "performAll refusing [impatientGet, OpHealthCheck] ?w"
  let ?w2 = "perform refusing plainGet ?w1"
  note first = proxy_configuration_immutable[of refusing "[]" ?w]
  note later = proxy_configuration_immutable[of refusing "[impatientGet, OpHealthCheck]" ?w]
  have me: "self ?w = usersProxy" by (simp add: freshWorld_def)
  have cfg: "cfg_timeout (config usersProxy) = 15000" "cfg_retries (config usersProxy) = 3"
    by (simp_all add: usersProxy_def)
  have ops: "impatientGet \<noteq> OpHealthCheck" "plainGet \<noteq> OpHealthCheck"
    "overridesOf impatientGet = Some \<lparr>co_retries = Some 0, co_timeout = Some 100\<rparr>"
    "overridesOf plainGet = None"
    by (simp_all add: impatientGet_def plainGet_def)
  have len: "length (issued ?w) = 0" "length (issued ?wo) = 1"
    "length (issued ?w1) = 2" "length (issued ?w2) = 6"
    by code_simp+
  from first ops(1) have
    o1: "\<forall>rq \<in> set (drop (length (issued (performAll refusing [] ?w)))
                      (issued (perform refusing impatientGet (performAll refusing [] ?w)))).
            rc_timeout rq =
              effectiveTimeout (case overridesOf impatientGet of None \<Rightarrow> None | Some co \<Rightarrow> co_timeout co)
                (config (self ?w))"
    and o2: "int (attempts (performAll refusing [] ?w) (perform refusing impatientGet (performAll refusing [] ?w)))
            \<le> max 0 (effectiveRetries (case overridesOf impatientGet of None \<Rightarrow> None | Some co \<Rightarrow> co_retries co)
                        (config (self ?w)) + 1)"
    by blast+
  have "issued ?wo ! 0 \<in> set (drop (length (issued ?w)) (issued ?wo))"
    unfolding len using len(2) by (simp add: nth_mem)
  with o1 have a: "rc_timeout (issued ?wo ! 0) = 100"
    unfolding ops by (simp add: effectiveTimeout_def)
  from o2 have b: "int (attempts ?w ?wo) \<le> 1"
    unfolding ops by (simp add: effectiveRetries_def)
  from later ops(2,4) have
    d1: "\<forall>rq \<in> set (drop (length (issued ?w1)) (issued ?w2)). rc_timeout rq = cfg_timeout (config (self ?w))"
    and d2: "int (attempts ?w1 ?w2) \<le> max 0 (cfg_retries (config (self ?w)) + 1)"
    by blast+
  have "drop 2 (issued ?w2) ! 0 \<in> set (drop 2 (issued ?w2))"
    by (rule nth_mem) (use len in simp)
  then have "issued ?w2 ! 2 \<in> set (drop (length (issued ?w1)) (issued ?w2))"
    using len by simp
  with d1 have c: "rc_timeout (issued ?w2 ! 2) = 15000"
    unfolding me cfg by simp
  from d2 have d: "int (attempts ?w1 ?w2) \<le> 4"
    unfolding me cfg by simp
  from later have s: "self ?w1 = usersProxy" unfolding me by blast
  from s a b c d show ?thesis by blast
qed

section \<open>The retry decision on classified errors\<close>

lemma transformError_status:
  "err_status (transformError name raw) =
     Some (if raw_code raw = Some ''ECONNREFUSED'' \<or> raw_code raw = Some ''ENOTFOUND'' then 503
           else if raw_code raw = Some ''ETIMEDOUT'' \<or> messageIncludes (raw_message raw) ''timeout''
             then 504
           else (case raw_response raw of Some response \<Rightarrow> resp_status response | None \<Rightarrow> 502))"
  by (simp add: transformError_def new_Error_def Let_def split: option.split)

lemma settled_status:
  "settled raw \<Longrightarrow> err_status (transformError name raw) = Some s \<Longrightarrow> s \<noteq> 0"
  by (auto simp add: transformError_status settled_def split: if_splits option.splits)

lemma request_attempts_budget:
  assumes "j < attempts w (snd (request e method path options w))"
  shows "0 \<le> effectiveRetries (opt_retries options) (config (self w))"
proof (rule ccontr)
  assume "\<not> 0 \<le> effectiveRetries (opt_retries options) (config (self w))"
  then have "effectiveRetries (opt_retries options) (config (self w)) < 0" by simp
  from request_no_budget[OF this, of e "method" "path"]
  have "attempts w (snd (request e method path options w)) = 0"
    by (simp add: attempts_def issued_def)
  with assms show False by simp
qed

text \<open>
  Claim C1. Behind the proxy's interceptor, for a physical attempt number \<open>j + 1\<close> that
  axios rejects: the classifier gives a network failure status 503, a timeout 504, a
  response its own status and anything else 502; the attempt is retried exactly when
  that status is at least 500 and neither 501 nor 505 and the attempt number has not
  exceeded the budget; a failure with a status in [400, 500), 429 included, is never
  retried, whatever the attempt number.
\<close>

theorem retry_decision:
  assumes r: "r = effectiveRetries (opt_retries options) (config (self w))"
    and rc: "rc = requestConfigOf method path options w"
    and w': "w' = snd (request e method path options w)"
    and inst: "axiosRequest e = intercepted name transport"
    and issuedj: "j < attempts w w'"
    and fails: "transport (length (issued w) + j) rc = Inl raw"
    and real: "settled raw"
  shows
    "\<exists>s. err_status (transformError name raw) = Some s
       \<and> s = (if raw_code raw = Some ''ECONNREFUSED'' \<or> raw_code raw = Some ''ENOTFOUND'' then 503
              else if raw_code raw = Some ''ETIMEDOUT'' \<or> messageIncludes (raw_message raw) ''timeout''
                then 504
              else (case raw_response raw of Some response \<Rightarrow> resp_status response | None \<Rightarrow> 502))
       \<and> (Suc j < attempts w w' \<longleftrightarrow>
            500 \<le> s \<and> s \<noteq> 501 \<and> s \<noteq> 505 \<and> int (Suc j) \<le> r)
       \<and> (400 \<le> s \<and> s < 500 \<longrightarrow> \<not> Suc j < attempts w w')"
proof -
  let ?s = "if raw_code raw = Some ''ECONNREFUSED'' \<or> raw_code raw = Some ''ENOTFOUND'' then 503
              else if raw_code raw = Some ''ETIMEDOUT'' \<or> messageIncludes (raw_message raw) ''timeout''
                then 504
              else (case raw_response raw of Some response \<Rightarrow> resp_status response | None \<Rightarrow> 502)"
  have s: "err_status (transformError name raw) = Some ?s" by (rule transformError_status)
  from settled_status[OF real s] have nz: "?s \<noteq> 0" .
  have out: "outcomeAt e w rc j = Inl (transformError name raw)"
    using inst fails by (simp add: outcomeAt_def intercepted_def)
  have nr: "nonRetryable (transformError name raw) \<longleftrightarrow> \<not> (500 \<le> ?s \<and> ?s \<noteq> 501 \<and> ?s \<noteq> 505)"
    using nz unfolding nonRetryable_def s by auto
  from issuedj have "0 \<le> effectiveRetries (opt_retries options) (config (self w))"
    unfolding w' by (rule request_attempts_budget)
  from request_callRuns[OF this]
  obtain m where "callRuns e method path options w m" by blast
  then have att: "attempts w w' = Suc m"
    and mr: "int m \<le> r"
    and early: "\<And>i. i < m \<Longrightarrow> \<exists>err. outcomeAt e w rc i = Inl err \<and> \<not> nonRetryable err"
    and ko: "\<And>err. outcomeAt e w rc m = Inl err \<Longrightarrow> nonRetryable err \<or> int m = r"
    unfolding callRuns_def Let_def r rc w' by simp_all
  have decision: "Suc j < attempts w w' \<longleftrightarrow> \<not> nonRetryable (transformError name raw) \<and> int (Suc j) \<le> r"
  proof (cases "j < m")
    case True
    from early[OF True] out have "\<not> nonRetryable (transformError name raw)" by simp
    moreover from True mr have "int (Suc j) \<le> r" by simp
    ultimately show ?thesis using True att by simp
  next
    case False
    with issuedj att have jm: "j = m" by simp
    from ko[of "transformError name raw"] out jm
    have "nonRetryable (transformError name raw) \<or> int m = r" by simp
    then show ?thesis using jm att by auto
  qed
  have a: "(Suc j < attempts w w' \<longleftrightarrow> 500 \<le> ?s \<and> ?s \<noteq> 501 \<and> ?s \<noteq> 505 \<and> int (Suc j) \<le> r)"
    using decision nr by blast
  have b: "400 \<le> ?s \<and> ?s < 500 \<longrightarrow> \<not> Suc j < attempts w w'"
    using a by linarith
  from s a b show ?thesis by blast
qed

text \<open>
  A refused connection (status 503) is retried after the first attempt; a 429 is not.
\<close>

lemma usersProxy_budget:
  "effectiveRetries (opt_retries (spreadOptions d p None)) (config (self (freshWorld usersProxy))) = 3"
  by (simp add: effectiveRetries_def spreadOptions_def freshWorld_def usersProxy_def)

theorem retry_decision_witness:
  "err_status (transformError ''users'' connectionRefused) = Some 503
   \<and> Suc 0 < attempts (freshWorld usersProxy)
        (snd (request refusing ''GET'' ''/api/users'' (spreadOptions None None None)
           (freshWorld usersProxy)))
   \<and> err_status (transformError ''users'' tooManyRequests) = Some 429
   \<and> \<not> Suc 0 < attempts (freshWorld usersProxy)
        (snd (request rateLimiting ''GET'' ''/api/users'' (spreadOptions None None None)
           (freshWorld usersProxy)))"
proof -
  let ?w = "freshWorld usersProxy"
  let ?o = "spreadOptions None None None"
  let ?rc = "requestConfigOf ''GET'' ''/api/users'' ?o ?w"
  have r3: "effectiveRetries (opt_retries ?o) (config (self ?w)) = 3"
    by (rule usersProxy_budget)
  have s1: "err_status (transformError ''users'' connectionRefused) = Some 503"
    by (simp add: transformError_def connectionRefused_def new_Error_def Let_def)
  have s2: "err_status (transformError ''users'' tooManyRequests) = Some 429"
    by (simp add: transformError_def tooManyRequests_def new_Error_def Let_def messageIncludes_def)
  have i1: "axiosRequest refusing = intercepted ''users'' (\<lambda>n rc. Inl connectionRefused)"
    by (simp add: refusing_def)
  have i2: "axiosRequest rateLimiting = intercepted ''users'' (\<lambda>n rc. Inl tooManyRequests)"
    by (simp add: rateLimiting_def)
  have a1: "0 < attempts ?w (snd (request refusing ''GET'' ''/api/users'' ?o ?w))"
    by code_simp
  have a2: "0 < attempts ?w (snd (request rateLimiting ''GET'' ''/api/users'' ?o ?w))"
    by code_simp
  have g1: "settled connectionRefused" by (simp add: settled_def connectionRefused_def)
  have g2: "settled tooManyRequests" by (simp add: settled_def tooManyRequests_def)
  from retry_decision[OF refl refl refl i1 a1 refl g1] s1
  have "Suc 0 < attempts ?w (snd (request refusing ''GET'' ''/api/users'' ?o ?w))"
    unfolding r3 by simp
  moreover from retry_decision[OF refl refl refl i2 a2 refl g2] s2
  have "\<not> Suc 0 < attempts ?w (snd (request rateLimiting ''GET'' ''/api/users'' ?o ?w))"
    unfolding r3 by simp
  ultimately show ?thesis using s1 s2 by simp
qed

section \<open>Aggregation\<close>














section \<open>Enrichment\<close>








end
